theory Spec2Isabelle
  imports Complex_Main "HOL-Library.Multiset"
begin

section \<open>TweetDelete: the cleanup script \<open>main.py\<close>\<close>

text \<open>
  A shallow embedding of the class \<open>TwitterCleaner\<close> of
  \<open>src/PycharmProjects/TweetDelete/main.py\<close>. The tweepy client is the
  external collaborator: its three operations are parameters of the model, each
  a function of the collaborator's own (abstract) state, so that two calls with
  the same arguments may answer differently. Every call of the client, every
  \<open>print\<close> and \<open>input\<close> of the source and every \<open>time.sleep\<close> that
  returns is recorded, in order, in a trace of events; \<open>print\<close> is taken to
  succeed. An interrupt from the keyboard is not an \<open>Exception\<close>
  and no handler of the class catches it; it is outside the model.
\<close>

subsection \<open>Python's \<open>str\<close> on integers\<close>

definition digit_char :: "nat \<Rightarrow> char" where
  "digit_char d = char_of (48 + d)"

function str_nat :: "nat \<Rightarrow> string" where
  "str_nat n = (if n < 10 then [digit_char n] else str_nat (n div 10) @ [digit_char (n mod 10)])"
  by pat_completeness auto
termination
  by (relation "measure (\<lambda>n. n)") auto

declare str_nat.simps [simp del]

definition str_int :: "int \<Rightarrow> string" where
  "str_int i = (if i < 0 then CHR ''-'' # str_nat (nat (- i)) else str_nat (nat i))"

subsection \<open>Data\<close>

text \<open>An entry of \<open>tweet.referenced_tweets\<close>: \<open>ref.type\<close> and \<open>ref.id\<close>.\<close>

record reference =
  ref_type :: string
  ref_id :: int

text \<open>A tweet of \<open>tweets.data\<close>, with the fields the script reads.\<close>

record raw_tweet =
  raw_id :: int
  raw_text :: string
  raw_created_at :: int
  raw_referenced_tweets :: "reference list option"

text \<open>A tweet of \<open>tweets.includes['tweets']\<close>.\<close>

record ref_tweet =
  inc_id :: int
  inc_author_id :: int

text \<open>
  The response of \<open>get_users_tweets\<close>. \<open>includes_tweets\<close> is \<open>None\<close> when
  \<open>tweets.includes\<close> is falsy or has no key \<open>'tweets'\<close>; \<open>next_token\<close> is
  \<open>None\<close> when \<open>tweets.meta\<close> is falsy or has no key \<open>'next_token'\<close>.
\<close>

record response =
  data :: "raw_tweet list option"
  includes_tweets :: "ref_tweet list option"
  next_token :: "string option"

text \<open>
  The dictionary \<open>tweet_dict\<close>: its four fixed keys, and the keys
  \<open>ref_tweet_<id>_author\<close> added from the includes, as a map from the key
  string to the author id.
\<close>

record tweet_dict =
  tweet_id :: int
  text_of :: string
  created_at :: int
  referenced_tweets :: "reference list option"
  ref_authors :: "string \<rightharpoonup> int"

text \<open>
  The module-level configuration constants. \<open>RATE_LIMIT_DELAY\<close> is an
  integer number of seconds, as in the source, of either sign;
  \<open>MAX_TWEETS_TO_PROCESS\<close> is \<open>None\<close> or any integer.
\<close>

record config =
  preserve_retweets_from :: "string list"
  dry_run :: bool
  rate_limit_delay :: int
  max_tweets_to_process :: "int option"

text \<open>
  An exception of class \<open>Exception\<close> is the string its \<open>{e}\<close> prints.
  \<open>get_user\<close> answers with \<open>user.data\<close> (\<open>None\<close> when the user does not
  exist), reduced to \<open>user.data.id\<close>.
\<close>

type_synonym exn = string

record 'c twitter_cleaner =
  get_user :: "'c \<Rightarrow> string \<Rightarrow> (exn + int option) \<times> 'c"
  get_users_tweets :: "'c \<Rightarrow> int \<Rightarrow> string option \<Rightarrow> (exn + response) \<times> 'c"
  delete_tweet :: "'c \<Rightarrow> int \<Rightarrow> (exn + unit) \<times> 'c"
  user_id :: int
  username :: string

datatype event =
    Print string
  | Input string
  | Get_user string
  | Get_users_tweets int "string option"
  | Delete_tweet int
  | Sleep rat

record 'c world =
  cstate :: 'c
  events :: "event list"

definition emit :: "event list \<Rightarrow> 'c world \<Rightarrow> 'c world" where
  "emit es w = w\<lparr>events := events w @ es\<rparr>"

definition called :: "'c \<Rightarrow> event list \<Rightarrow> 'c world \<Rightarrow> 'c world" where
  "called s es w = w\<lparr>cstate := s, events := events w @ es\<rparr>"

text \<open>A value used as a condition or iterated under \<open>if x:\<close>: \<open>None\<close> and \<open>[]\<close> are both falsy.\<close>

definition items :: "'a list option \<Rightarrow> 'a list" where
  "items x = (case x of None \<Rightarrow> [] | Some xs \<Rightarrow> xs)"

subsection \<open>\<open>should_delete_tweet\<close>\<close>

definition author_key :: "int \<Rightarrow> string" where
  "author_key ref_tweet_id = ''ref_tweet_'' @ str_int ref_tweet_id @ ''_author''"

text \<open>The \<open>for ref in tweet['referenced_tweets']\<close> loop; \<open>False\<close> is the early \<open>return False\<close>.\<close>

fun scan_references :: "tweet_dict \<Rightarrow> string set \<Rightarrow> reference list \<Rightarrow> bool" where
  "scan_references tweet preserve_user_ids [] = True"
| "scan_references tweet preserve_user_ids (ref # refs) =
     (if ref_type ref = ''retweeted'' then
        (case ref_authors tweet (author_key (ref_id ref)) of
           Some author \<Rightarrow>
             if str_int author \<in> preserve_user_ids then False
             else scan_references tweet preserve_user_ids refs
         | None \<Rightarrow> scan_references tweet preserve_user_ids refs)
      else scan_references tweet preserve_user_ids refs)"

definition should_delete_tweet :: "tweet_dict \<Rightarrow> string set \<Rightarrow> bool" where
  "should_delete_tweet tweet preserve_user_ids =
     (case referenced_tweets tweet of
        None \<Rightarrow> True
      | Some [] \<Rightarrow> True
      | Some (ref # refs) \<Rightarrow> scan_references tweet preserve_user_ids (ref # refs))"

text \<open>A reference that keeps the tweet: a retweet whose attached author is in the preserve set.\<close>

definition preserved_reference :: "tweet_dict \<Rightarrow> string set \<Rightarrow> reference \<Rightarrow> bool" where
  "preserved_reference tweet preserve_user_ids ref =
     (ref_type ref = ''retweeted'' \<and>
      (case ref_authors tweet (author_key (ref_id ref)) of
         None \<Rightarrow> False
       | Some author \<Rightarrow> str_int author \<in> preserve_user_ids))"

subsection \<open>\<open>get_user_ids_to_preserve\<close>\<close>

text \<open>
  The loop over \<open>PRESERVE_RETWEETS_FROM\<close>, with the set \<open>user_ids\<close> as
  accumulator. The three branches are the \<open>except\<close> clause, \<open>user.data\<close>
  falsy, and \<open>user.data\<close> present.
\<close>

fun resolve_usernames ::
  "'c twitter_cleaner \<Rightarrow> string list \<Rightarrow> string set \<Rightarrow> 'c world \<Rightarrow> string set \<times> 'c world" where
  "resolve_usernames self [] user_ids w = (user_ids, w)"
| "resolve_usernames self (name # names) user_ids w =
     (case get_user self (cstate w) name of
        (Inl e, s) \<Rightarrow>
          resolve_usernames self names user_ids
            (called s [Get_user name, Print (''Error looking up @'' @ name @ '': '' @ e)] w)
      | (Inr None, s) \<Rightarrow>
          resolve_usernames self names user_ids
            (called s [Get_user name, Print (''Warning: Could not find user @'' @ name)] w)
      | (Inr (Some uid), s) \<Rightarrow>
          resolve_usernames self names (insert (str_int uid) user_ids)
            (called s [Get_user name,
               Print (''Will preserve retweets from @'' @ name @ '' (ID: '' @ str_int uid @ '')'')] w))"

definition get_user_ids_to_preserve ::
  "'c twitter_cleaner \<Rightarrow> config \<Rightarrow> 'c world \<Rightarrow> string set \<times> 'c world" where
  "get_user_ids_to_preserve self cfg w =
     resolve_usernames self (preserve_retweets_from cfg) {} w"

subsection \<open>\<open>get_all_tweets\<close>\<close>

text \<open>The inner loop over \<open>tweets.includes['tweets']\<close>: a later entry overwrites an earlier one.\<close>

fun attach_authors :: "ref_tweet list \<Rightarrow> (string \<rightharpoonup> int) \<Rightarrow> (string \<rightharpoonup> int)" where
  "attach_authors [] m = m"
| "attach_authors (rt # rts) m =
     attach_authors rts (m(author_key (inc_id rt) \<mapsto> inc_author_id rt))"

definition make_tweet_dict :: "response \<Rightarrow> raw_tweet \<Rightarrow> tweet_dict" where
  "make_tweet_dict tweets tweet =
     \<lparr> tweet_id = raw_id tweet,
       text_of = raw_text tweet,
       created_at = raw_created_at tweet,
       referenced_tweets = raw_referenced_tweets tweet,
       ref_authors = attach_authors (items (includes_tweets tweets)) Map.empty \<rparr>"

definition page_records :: "response \<Rightarrow> tweet_dict list" where
  "page_records tweets = map (make_tweet_dict tweets) (items (data tweets))"

text \<open>The body of \<open>if tweets.data:\<close>, the appends and the progress line.\<close>

definition append_page :: "response \<Rightarrow> tweet_dict list \<Rightarrow> tweet_dict list" where
  "append_page tweets all_tweets = all_tweets @ page_records tweets"

definition progress :: "response \<Rightarrow> tweet_dict list \<Rightarrow> event list" where
  "progress tweets all_tweets =
     (if items (data tweets) = [] then []
      else [Print (''Fetched '' @ str_nat (length (append_page tweets all_tweets)) @ '' tweets so far...'')])"

text \<open>
  The \<open>while True\<close> loop. Nothing bounds the number of pages, so the loop is a
  partial function: \<open>None\<close> is a run that never leaves the loop.
\<close>

partial_function (option) fetch_loop ::
  "'c twitter_cleaner \<Rightarrow> string option \<Rightarrow> tweet_dict list \<Rightarrow> 'c world
     \<Rightarrow> (tweet_dict list \<times> 'c world) option" where
  "fetch_loop self pagination_token all_tweets w =
     (case get_users_tweets self (cstate w) (user_id self) pagination_token of
        (Inl e, s) \<Rightarrow>
          Some (all_tweets,
            called s [Get_users_tweets (user_id self) pagination_token,
                      Print (''Error fetching tweets: '' @ e)] w)
      | (Inr tweets, s) \<Rightarrow>
          (case next_token tweets of
             None \<Rightarrow>
               Some (append_page tweets all_tweets,
                 called s (Get_users_tweets (user_id self) pagination_token
                           # progress tweets all_tweets) w)
           | Some token \<Rightarrow>
               fetch_loop self (Some token) (append_page tweets all_tweets)
                 (called s (Get_users_tweets (user_id self) pagination_token
                            # progress tweets all_tweets @ [Sleep (1 / 2)]) w)))"

definition get_all_tweets ::
  "'c twitter_cleaner \<Rightarrow> 'c world \<Rightarrow> (tweet_dict list \<times> 'c world) option" where
  "get_all_tweets self w =
     (case fetch_loop self None []
             (emit [Print (CHR 0x0A # ''Fetching tweets from @'' @ username self @ ''...'')] w) of
        None \<Rightarrow> None
      | Some (all_tweets, w') \<Rightarrow>
          Some (all_tweets,
            emit [Print (''Total tweets fetched: '' @ str_nat (length all_tweets))] w'))"

subsection \<open>\<open>delete_tweets\<close>\<close>

text \<open>
  A Python \<open>str\<close> is kept as its UTF-8 bytes. \<open>len\<close> and a slice count code
  points: the bytes that are not continuation bytes (\<open>0x80\<close> to \<open>0xBF\<close>).
\<close>

definition is_continuation :: "char \<Rightarrow> bool" where
  "is_continuation c = (128 \<le> (of_char c :: nat) \<and> (of_char c :: nat) < 192)"

definition py_len :: "string \<Rightarrow> nat" where
  "py_len txt = length (filter (\<lambda>c. \<not> is_continuation c) txt)"

text \<open>\<open>text[:n]\<close>: the bytes of the first \<open>n\<close> code points.\<close>

fun py_take :: "nat \<Rightarrow> string \<Rightarrow> string" where
  "py_take n [] = []"
| "py_take n (c # cs) =
     (if is_continuation c then c # py_take n cs
      else (case n of 0 \<Rightarrow> [] | Suc m \<Rightarrow> c # py_take m cs))"

text \<open>\<open>text[:n] + '...' if len(text) > n else text\<close>\<close>

definition preview :: "nat \<Rightarrow> string \<Rightarrow> string" where
  "preview n txt = (if py_len txt > n then py_take n txt @ ''...'' else txt)"

text \<open>
  \<open>time.sleep(d)\<close> on an integer \<open>d\<close>: the exception it raises, if any. It
  raises \<open>OverflowError\<close> when \<open>d\<close> seconds do not fit in 64 bits of
  nanoseconds and \<open>ValueError\<close> when \<open>d\<close> is negative; otherwise it returns.
\<close>

definition sleep_error :: "int \<Rightarrow> exn option" where
  "sleep_error d =
     (if d < - 9223372036 \<or> 9223372036 < d
      then Some ''timestamp too large to convert to C _PyTime_t''
      else if d < 0 then Some ''sleep length must be non-negative''
      else None)"

text \<open>
  \<open>MAX_TWEETS_TO_PROCESS and i >= MAX_TWEETS_TO_PROCESS\<close>: the limit when the
  test holds. \<open>None\<close> and \<open>0\<close> are both falsy.
\<close>

definition limit_hit :: "int option \<Rightarrow> nat \<Rightarrow> int option" where
  "limit_hit m i =
     (case m of
        None \<Rightarrow> None
      | Some n \<Rightarrow> if n \<noteq> 0 \<and> n \<le> int i then Some n else None)"

text \<open>
  One pass through the loop body after the limit test, on the pair of counters.
  The pause stands inside the \<open>try\<close>, after \<open>deleted_count += 1\<close>: when it
  raises, the \<open>except\<close> clause runs as well.
\<close>

definition process_tweet ::
  "'c twitter_cleaner \<Rightarrow> config \<Rightarrow> tweet_dict \<Rightarrow> nat \<times> nat \<Rightarrow> 'c world
     \<Rightarrow> (nat \<times> nat) \<times> 'c world" where
  "process_tweet self cfg tweet counts w =
     (case counts of (deleted_count, failed_count) \<Rightarrow>
        if dry_run cfg then
          ((deleted_count + 1, failed_count),
           emit [Print (''[DRY RUN] Would delete tweet '' @ str_int (tweet_id tweet) @ '': ''
                        @ preview 50 (text_of tweet))] w)
        else
          (case delete_tweet self (cstate w) (tweet_id tweet) of
             (Inr u, s) \<Rightarrow>
               (case sleep_error (rate_limit_delay cfg) of
                  None \<Rightarrow>
                    ((deleted_count + 1, failed_count),
                     called s [Delete_tweet (tweet_id tweet),
                               Print (''Deleted tweet '' @ str_int (tweet_id tweet) @ '': ''
                                      @ preview 50 (text_of tweet)),
                               Sleep (of_int (rate_limit_delay cfg))] w)
                | Some e \<Rightarrow>
                    ((deleted_count + 1, failed_count + 1),
                     called s [Delete_tweet (tweet_id tweet),
                               Print (''Deleted tweet '' @ str_int (tweet_id tweet) @ '': ''
                                      @ preview 50 (text_of tweet)),
                               Print (''Failed to delete tweet '' @ str_int (tweet_id tweet)
                                      @ '': '' @ e)] w))
           | (Inl e, s) \<Rightarrow>
               ((deleted_count, failed_count + 1),
                called s [Delete_tweet (tweet_id tweet),
                          Print (''Failed to delete tweet '' @ str_int (tweet_id tweet) @ '': '' @ e)] w)))"

text \<open>The \<open>for i, tweet in enumerate(tweets_to_delete)\<close> loop, from index \<open>i\<close>.\<close>

fun delete_loop ::
  "'c twitter_cleaner \<Rightarrow> config \<Rightarrow> nat \<Rightarrow> tweet_dict list \<Rightarrow> nat \<times> nat \<Rightarrow> 'c world
     \<Rightarrow> (nat \<times> nat) \<times> 'c world" where
  "delete_loop self cfg i [] counts w = (counts, w)"
| "delete_loop self cfg i (tweet # rest) counts w =
     (case limit_hit (max_tweets_to_process cfg) i of
        Some n \<Rightarrow>
          (counts, emit [Print (CHR 0x0A # ''Reached maximum tweet limit ('' @ str_int n @ '')'')] w)
      | None \<Rightarrow>
          (case process_tweet self cfg tweet counts w of
             (counts', w') \<Rightarrow> delete_loop self cfg (Suc i) rest counts' w'))"

definition delete_tweets ::
  "'c twitter_cleaner \<Rightarrow> config \<Rightarrow> tweet_dict list \<Rightarrow> 'c world \<Rightarrow> (nat \<times> nat) \<times> 'c world" where
  "delete_tweets self cfg tweets_to_delete w = delete_loop self cfg 0 tweets_to_delete (0, 0) w"

subsection \<open>\<open>run\<close>\<close>

definition banner :: string where
  "banner = replicate 50 (CHR ''='')"

text \<open>The warning sign of the two notices, U+26A0 U+FE0F in UTF-8.\<close>

definition warning_sign :: string where
  "warning_sign = [CHR 0xE2, CHR 0x9A, CHR 0xA0, CHR 0xEF, CHR 0xB8, CHR 0x8F]"

definition confirm_prompt :: string where
  "confirm_prompt = ''Type '' @ [CHR 0x27] @ ''DELETE'' @ [CHR 0x27] @ '' to confirm: ''"

definition keep_preview :: "tweet_dict list \<Rightarrow> event list" where
  "keep_preview tweets_to_keep =
     (if tweets_to_keep = [] then []
      else Print (CHR 0x0A # ''Preserved retweets preview:'')
           # map (\<lambda>tweet. Print (''  - '' @ preview 60 (text_of tweet))) (take 5 tweets_to_keep)
           @ (if length tweets_to_keep > 5
              then [Print (''  ... and '' @ str_nat (length tweets_to_keep - 5) @ '' more'')]
              else []))"

definition final_report :: "config \<Rightarrow> nat \<Rightarrow> nat \<Rightarrow> tweet_dict list \<Rightarrow> event list" where
  "final_report cfg deleted failed tweets_to_keep =
     [Print (CHR 0x0A # banner), Print ''COMPLETED'', Print banner]
     @ (if dry_run cfg
        then [Print (''DRY RUN: Would have deleted '' @ str_nat deleted @ '' tweets'')]
        else Print (''Successfully deleted: '' @ str_nat deleted @ '' tweets'')
             # (if failed > 0
                then [Print (''Failed to delete: '' @ str_nat failed @ '' tweets'')]
                else []))
     @ [Print (''Preserved retweets: '' @ str_nat (length tweets_to_keep))]"

text \<open>\<open>run\<close> from \<open>preserve_user_ids = self.get_user_ids_to_preserve()\<close> on.\<close>

definition run_confirmed :: "'c twitter_cleaner \<Rightarrow> config \<Rightarrow> 'c world \<Rightarrow> 'c world option" where
  "run_confirmed self cfg w =
     (case get_user_ids_to_preserve self cfg w of
        (preserve_user_ids, w1) \<Rightarrow>
          (case get_all_tweets self w1 of
             None \<Rightarrow> None
           | Some (all_tweets, w2) \<Rightarrow>
               if all_tweets = [] then Some (emit [Print ''No tweets found.''] w2)
               else
                 (let tweets_to_delete =
                        filter (\<lambda>tweet. should_delete_tweet tweet preserve_user_ids) all_tweets;
                      tweets_to_keep =
                        filter (\<lambda>tweet. \<not> should_delete_tweet tweet preserve_user_ids) all_tweets;
                      w3 = emit
                        ([Print (CHR 0x0A # banner), Print ''SUMMARY'', Print banner,
                          Print (''Total tweets found: '' @ str_nat (length all_tweets)),
                          Print (''Tweets to DELETE: '' @ str_nat (length tweets_to_delete)),
                          Print (''Retweets to KEEP: '' @ str_nat (length tweets_to_keep))]
                         @ keep_preview tweets_to_keep) w2
                  in if tweets_to_delete = []
                     then Some (emit [Print (CHR 0x0A # ''No tweets to delete!'')] w3)
                     else
                       (case delete_tweets self cfg tweets_to_delete
                               (emit (Print (CHR 0x0A # banner)
                                  # (if dry_run cfg
                                     then [Print ''Starting DRY RUN deletion process...'']
                                     else [Print ''Starting ACTUAL deletion process...'',
                                           Print ''You can stop the script at any time with Ctrl+C''])) w3) of
                          ((deleted, failed), w4) \<Rightarrow>
                            Some (emit (final_report cfg deleted failed tweets_to_keep) w4)))))"

text \<open>\<open>run\<close>; \<open>confirm\<close> is the line that \<open>input\<close> returns when it is called.\<close>

definition run :: "'c twitter_cleaner \<Rightarrow> config \<Rightarrow> string \<Rightarrow> 'c world \<Rightarrow> 'c world option" where
  "run self cfg confirm w =
     (let w1 = emit [Print (CHR 0x0A # banner), Print ''TWITTER/X CLEANUP SCRIPT'', Print banner] w
      in if dry_run cfg then
           run_confirmed self cfg
             (emit [Print (CHR 0x0A # warning_sign @ ''  DRY RUN MODE - No tweets will actually be deleted''),
                    Print (''Set DRY_RUN = False to perform actual deletions'' @ [CHR 0x0A])] w1)
         else
           (let w2 = emit [Print (CHR 0x0A # warning_sign @ ''  WARNING: This will DELETE tweets permanently!''),
                           Input confirm_prompt] w1
            in if confirm \<noteq> ''DELETE'' then Some (emit [Print ''Aborted.''] w2)
               else run_confirmed self cfg w2))"

subsection \<open>Reading the trace\<close>

fun is_delete_call :: "event \<Rightarrow> bool" where
  "is_delete_call (Delete_tweet i) = True"
| "is_delete_call e = False"

fun is_page_request :: "event \<Rightarrow> bool" where
  "is_page_request (Get_users_tweets u t) = True"
| "is_page_request e = False"

fun is_user_lookup :: "event \<Rightarrow> bool" where
  "is_user_lookup (Get_user n) = True"
| "is_user_lookup e = False"

fun is_client_call :: "event \<Rightarrow> bool" where
  "is_client_call (Get_user n) = True"
| "is_client_call (Get_users_tweets u t) = True"
| "is_client_call (Delete_tweet i) = True"
| "is_client_call e = False"

definition delete_calls :: "event list \<Rightarrow> event list" where
  "delete_calls es = filter is_delete_call es"

definition page_requests :: "event list \<Rightarrow> event list" where
  "page_requests es = filter is_page_request es"

definition user_lookups :: "event list \<Rightarrow> event list" where
  "user_lookups es = filter is_user_lookup es"

definition client_calls :: "event list \<Rightarrow> event list" where
  "client_calls es = filter is_client_call es"

subsection \<open>What the collaborator answers\<close>

text \<open>
  The number of tweets the loop of \<open>delete_tweets\<close> runs its body on, when it
  is at index \<open>i\<close> with \<open>len\<close> tweets left.
\<close>

definition processed :: "int option \<Rightarrow> nat \<Rightarrow> nat \<Rightarrow> nat" where
  "processed m i len =
     (case m of
        None \<Rightarrow> len
      | Some n \<Rightarrow> if n = 0 then len else min len (nat n - i))"

text \<open>The answers of \<open>get_user\<close> when it is asked the names in order from state \<open>s\<close>.\<close>

fun lookup_results :: "'c twitter_cleaner \<Rightarrow> 'c \<Rightarrow> string list \<Rightarrow> (exn + int option) list" where
  "lookup_results self s [] = []"
| "lookup_results self s (name # names) =
     (case get_user self s name of (r, s') \<Rightarrow> r # lookup_results self s' names)"

text \<open>
  From state \<open>s\<close> and cursor \<open>token\<close> the collaborator answers with exactly the
  pages of the list, without error: each page's next token is the cursor of the
  request for the following page, and only the last page has none.
\<close>

fun pages_chain :: "'c twitter_cleaner \<Rightarrow> 'c \<Rightarrow> string option \<Rightarrow> response list \<Rightarrow> bool" where
  "pages_chain self s token [] = False"
| "pages_chain self s token (page # pages) =
     (case get_users_tweets self s (user_id self) token of
        (Inl e, s') \<Rightarrow> False
      | (Inr tweets, s') \<Rightarrow>
          tweets = page \<and>
          (case next_token page of
             None \<Rightarrow> pages = []
           | Some t \<Rightarrow> pages \<noteq> [] \<and> pages_chain self s' (Some t) pages))"

text \<open>
  From state \<open>s\<close> and cursor \<open>token\<close> the collaborator answers with the pages
  of the list, each with a next token, and then fails the following request
  with the exception \<open>e\<close>.
\<close>

fun pages_then_error ::
  "'c twitter_cleaner \<Rightarrow> 'c \<Rightarrow> string option \<Rightarrow> response list \<Rightarrow> exn \<Rightarrow> bool" where
  "pages_then_error self s token [] e =
     (case get_users_tweets self s (user_id self) token of
        (Inl e', s') \<Rightarrow> e' = e
      | (Inr tweets, s') \<Rightarrow> False)"
| "pages_then_error self s token (page # pages) e =
     (case get_users_tweets self s (user_id self) token of
        (Inl e', s') \<Rightarrow> False
      | (Inr tweets, s') \<Rightarrow>
          tweets = page \<and>
          (case next_token page of
             None \<Rightarrow> False
           | Some t \<Rightarrow> pages_then_error self s' (Some t) pages e))"

text \<open>What a run of \<open>get_all_tweets\<close> shows: the ids returned and the page requests made.\<close>

definition fetched :: "(tweet_dict list \<times> 'c world) option \<Rightarrow> (int list \<times> event list) option" where
  "fetched r =
     (case r of
        None \<Rightarrow> None
      | Some (all_tweets, w) \<Rightarrow> Some (map tweet_id all_tweets, page_requests (events w)))"

subsection \<open>A retweet and its classification, as a running example\<close>

definition retweet_of_7 :: reference where
  "retweet_of_7 = \<lparr> ref_type = ''retweeted'', ref_id = 7 \<rparr>"

definition quote_of_8 :: reference where
  "quote_of_8 = \<lparr> ref_type = ''quoted'', ref_id = 8 \<rparr>"

definition sample_retweet :: tweet_dict where
  "sample_retweet =
     \<lparr> tweet_id = 1, text_of = ''RT hello'', created_at = 0,
       referenced_tweets = Some [quote_of_8, retweet_of_7],
       ref_authors = [author_key 7 \<mapsto> 42] \<rparr>"

subsection \<open>A collaborator, as a running example\<close>

text \<open>
  Three pages: two tweets and an included author, then an empty page that still
  carries a next token, then one tweet and no next token.
\<close>

definition first_page :: response where
  "first_page =
     \<lparr> data = Some [\<lparr> raw_id = 1, raw_text = ''RT hello'', raw_created_at = 0,
                       raw_referenced_tweets = Some [retweet_of_7] \<rparr>,
                     \<lparr> raw_id = 2, raw_text = ''my own words'', raw_created_at = 1,
                       raw_referenced_tweets = None \<rparr>],
       includes_tweets = Some [\<lparr> inc_id = 7, inc_author_id = 42 \<rparr>],
       next_token = Some ''t1'' \<rparr>"

definition empty_page :: response where
  "empty_page = \<lparr> data = None, includes_tweets = None, next_token = Some ''t2'' \<rparr>"

definition last_page :: response where
  "last_page =
     \<lparr> data = Some [\<lparr> raw_id = 3, raw_text = ''older words'', raw_created_at = 2,
                       raw_referenced_tweets = None \<rparr>],
       includes_tweets = None,
       next_token = None \<rparr>"

text \<open>
  The collaborator's state counts its calls. It knows one user, reports another
  as missing and fails on any other name; it serves the three pages by cursor;
  it refuses to delete tweet 2.
\<close>

definition sample_cleaner :: "nat twitter_cleaner" where
  "sample_cleaner =
     \<lparr> get_user = (\<lambda>s name.
         (if name = ''username1'' then Inr (Some 42)
          else if name = ''ghost_user'' then Inr None
          else Inl ''503 Service Unavailable'', Suc s)),
       get_users_tweets = (\<lambda>s uid token.
         (if token = None then Inr first_page
          else if token = Some ''t1'' then Inr empty_page
          else if token = Some ''t2'' then Inr last_page
          else Inl ''400 Bad Request'', Suc s)),
       delete_tweet = (\<lambda>s i. (if i = 2 then Inl ''403 Forbidden'' else Inr (), Suc s)),
       user_id = 99,
       username = ''me'' \<rparr>"

text \<open>The same collaborator, failing the request for the second page.\<close>

definition failing_cleaner :: "nat twitter_cleaner" where
  "failing_cleaner =
     sample_cleaner\<lparr> get_users_tweets := (\<lambda>s uid token.
       (if token = None then Inr first_page else Inl ''503 Service Unavailable'', Suc s)) \<rparr>"

definition start_world :: "nat world" where
  "start_world = \<lparr> cstate = 0, events = [] \<rparr>"

definition sample_config :: config where
  "sample_config =
     \<lparr> preserve_retweets_from = [''username1'', ''ghost_user'', ''username3''],
       dry_run = False,
       rate_limit_delay = 1,
       max_tweets_to_process = None \<rparr>"

definition plain_tweet :: "int \<Rightarrow> tweet_dict" where
  "plain_tweet i =
     \<lparr> tweet_id = i, text_of = ''words'', created_at = 0,
       referenced_tweets = None, ref_authors = Map.empty \<rparr>"

section \<open>Properties\<close>

lemma scan_references_iff:
  "scan_references tweet ids refs = (\<not> list_ex (preserved_reference tweet ids) refs)"
  by (induction refs) (auto simp: preserved_reference_def split: option.splits)

lemma should_delete_tweet_iff:
  "should_delete_tweet tweet ids =
     (\<not> list_ex (preserved_reference tweet ids) (items (referenced_tweets tweet)))"
  by (simp add: should_delete_tweet_def items_def scan_references_iff
      split: option.splits list.splits)

lemma list_ex_mset_cong:
  "mset xs = mset ys \<Longrightarrow> list_ex P xs = list_ex P ys"
  by (metis list_ex_iff mset_eq_setD)

lemma str_int_42: "str_int 42 = ''42''"
  by code_simp

subsection \<open>The classifier\<close>

text \<open>
  C1. \<open>should_delete_tweet\<close> answers \<open>False\<close> (preserve) exactly when some
  reference of the tweet has type \<open>retweeted\<close>, has an author attached under
  its key, and that author's string is in the preserve set; in every other case
  it answers \<open>True\<close> (delete).
\<close>

theorem should_delete_tweet_preserve_iff:
  "(should_delete_tweet tweet preserve_user_ids = False) =
     (\<exists>ref \<in> set (items (referenced_tweets tweet)).
        ref_type ref = ''retweeted'' \<and>
        (\<exists>author. ref_authors tweet (author_key (ref_id ref)) = Some author \<and>
                  str_int author \<in> preserve_user_ids))"
  by (auto simp: should_delete_tweet_iff list_ex_iff preserved_reference_def
      split: option.splits)

theorem should_delete_tweet_preserve_iff_witness:
  "should_delete_tweet sample_retweet {''42''} = False"
  using should_delete_tweet_preserve_iff [of sample_retweet "{''42''}"]
  by (simp add: sample_retweet_def retweet_of_7_def quote_of_8_def items_def str_int_42)

text \<open>
  C9. \<open>should_delete_tweet\<close> is a function of the tweet and the preserve set
  alone (it takes and returns no world): equal arguments give equal outcomes,
  and the outcome does not change when the references are permuted.
\<close>

theorem should_delete_tweet_order_independent:
  "(tweet' = tweet \<and> ids' = ids \<longrightarrow>
      should_delete_tweet tweet' ids' = should_delete_tweet tweet ids) \<and>
   (mset refs' = mset refs \<longrightarrow>
      should_delete_tweet (tweet\<lparr>referenced_tweets := Some refs'\<rparr>) ids =
      should_delete_tweet (tweet\<lparr>referenced_tweets := Some refs\<rparr>) ids)"
proof (intro conjI impI)
  assume "tweet' = tweet \<and> ids' = ids"
  then show "should_delete_tweet tweet' ids' = should_delete_tweet tweet ids" by simp
next
  assume perm: "mset refs' = mset refs"
  have "preserved_reference (tweet\<lparr>referenced_tweets := Some refs'\<rparr>) ids =
        preserved_reference (tweet\<lparr>referenced_tweets := Some refs\<rparr>) ids"
    by (rule ext) (simp add: preserved_reference_def)
  with list_ex_mset_cong [OF perm]
  show "should_delete_tweet (tweet\<lparr>referenced_tweets := Some refs'\<rparr>) ids =
        should_delete_tweet (tweet\<lparr>referenced_tweets := Some refs\<rparr>) ids"
    by (simp add: should_delete_tweet_iff items_def)
qed

theorem should_delete_tweet_order_independent_witness:
  "should_delete_tweet (sample_retweet\<lparr>referenced_tweets := Some [retweet_of_7, quote_of_8]\<rparr>) {''42''} =
   should_delete_tweet (sample_retweet\<lparr>referenced_tweets := Some [quote_of_8, retweet_of_7]\<rparr>) {''42''}"
  using should_delete_tweet_order_independent
    [of sample_retweet sample_retweet "{''42''}" "{''42''}"
        "[retweet_of_7, quote_of_8]" "[quote_of_8, retweet_of_7]"]
  by simp

lemma process_tweet_step:
  "dry_run cfg \<or> sleep_error (rate_limit_delay cfg) = None \<Longrightarrow>
   process_tweet self cfg tweet (d, f) w = ((d', f'), w') \<Longrightarrow>
     (d' = Suc d \<and> f' = f) \<or> (d' = d \<and> f' = Suc f)"
  by (auto simp: process_tweet_def split: if_splits prod.splits sum.splits option.splits)

lemma process_tweet_step_any:
  "process_tweet self cfg tweet (d, f) w = ((d', f'), w') \<Longrightarrow>
     d \<le> d' \<and> f \<le> f' \<and> Suc (d + f) \<le> d' + f' \<and> d' + f' \<le> Suc (Suc (d + f))"
  by (auto simp: process_tweet_def split: if_splits prod.splits sum.splits option.splits)

lemma processed_stop:
  "limit_hit m i = Some n \<Longrightarrow> processed m i len = 0"
  by (auto simp: limit_hit_def processed_def split: option.splits if_splits)

lemma processed_continue:
  "limit_hit m i = None \<Longrightarrow> processed m i (Suc len) = Suc (processed m (Suc i) len)"
  by (auto simp: limit_hit_def processed_def split: option.splits if_splits)

lemma delete_loop_counts:
  "dry_run cfg \<or> sleep_error (rate_limit_delay cfg) = None \<Longrightarrow>
   delete_loop self cfg i tweets (d, f) w = ((d', f'), w') \<Longrightarrow>
     d \<le> d' \<and> f \<le> f' \<and>
     d' + f' = d + f + processed (max_tweets_to_process cfg) i (length tweets)"
proof (induction tweets arbitrary: i d f w)
  case Nil
  then show ?case by (auto simp: processed_def split: option.splits)
next
  case (Cons tweet rest)
  show ?case
  proof (cases "limit_hit (max_tweets_to_process cfg) i")
    case (Some n)
    with Cons.prems show ?thesis by (simp add: processed_stop)
  next
    case None
    obtain d1 f1 w1 where step: "process_tweet self cfg tweet (d, f) w = ((d1, f1), w1)"
      by (metis prod.exhaust)
    with None Cons.prems have "delete_loop self cfg (Suc i) rest (d1, f1) w1 = ((d', f'), w')"
      by simp
    from Cons.IH [OF Cons.prems(1) this] process_tweet_step [OF Cons.prems(1) step]
      processed_continue [OF None]
    show ?thesis by auto
  qed
qed

lemma delete_loop_counts_any:
  "delete_loop self cfg i tweets (d, f) w = ((d', f'), w') \<Longrightarrow>
     d \<le> d' \<and> f \<le> f' \<and>
     d + f + processed (max_tweets_to_process cfg) i (length tweets) \<le> d' + f' \<and>
     d' + f' \<le> d + f + 2 * processed (max_tweets_to_process cfg) i (length tweets)"
proof (induction tweets arbitrary: i d f w)
  case Nil
  then show ?case by (auto simp: processed_def split: option.splits)
next
  case (Cons tweet rest)
  show ?case
  proof (cases "limit_hit (max_tweets_to_process cfg) i")
    case (Some n)
    with Cons.prems show ?thesis by (simp add: processed_stop)
  next
    case None
    obtain d1 f1 w1 where step: "process_tweet self cfg tweet (d, f) w = ((d1, f1), w1)"
      by (metis prod.exhaust)
    with None Cons.prems have "delete_loop self cfg (Suc i) rest (d1, f1) w1 = ((d', f'), w')"
      by simp
    from Cons.IH [OF this] process_tweet_step_any [OF step] processed_continue [OF None]
    show ?thesis by auto
  qed
qed

lemma process_tweet_dry_run:
  "dry_run cfg \<Longrightarrow> process_tweet self cfg tweet (d, f) w = ((d', f'), w') \<Longrightarrow>
     f' = f \<and> d' = Suc d \<and> cstate w' = cstate w \<and>
     client_calls (events w') = client_calls (events w)"
  by (auto simp: process_tweet_def emit_def client_calls_def)

lemma delete_loop_dry_run:
  "dry_run cfg \<Longrightarrow> delete_loop self cfg i tweets (d, f) w = ((d', f'), w') \<Longrightarrow>
     f' = f \<and> cstate w' = cstate w \<and> client_calls (events w') = client_calls (events w)"
proof (induction tweets arbitrary: i d f w)
  case Nil
  then show ?case by simp
next
  case (Cons tweet rest)
  show ?case
  proof (cases "limit_hit (max_tweets_to_process cfg) i")
    case (Some n)
    with Cons.prems show ?thesis by (auto simp: emit_def client_calls_def)
  next
    case None
    obtain d1 f1 w1 where step: "process_tweet self cfg tweet (d, f) w = ((d1, f1), w1)"
      by (metis prod.exhaust)
    with None Cons.prems have "delete_loop self cfg (Suc i) rest (d1, f1) w1 = ((d', f'), w')"
      by simp
    from Cons.IH [OF Cons.prems(1) this] process_tweet_dry_run [OF Cons.prems(1) step]
    show ?thesis by auto
  qed
qed

lemma client_calls_delete: "delete_calls es = filter is_delete_call (client_calls es)"
  unfolding delete_calls_def client_calls_def filter_filter
  by (rule filter_cong [OF refl]) (metis is_client_call.simps(3) is_delete_call.elims(2))


lemma process_tweet_calls:
  "process_tweet self cfg tweet (d, f) w = ((d', f'), w') \<Longrightarrow>
     length (delete_calls (events w')) \<le> Suc (length (delete_calls (events w)))"
  by (auto simp: process_tweet_def emit_def called_def delete_calls_def
      split: if_splits prod.splits sum.splits option.splits)

lemma delete_loop_calls:
  "delete_loop self cfg i tweets (d, f) w = ((d', f'), w') \<Longrightarrow>
     length (delete_calls (events w'))
       \<le> length (delete_calls (events w)) + processed (max_tweets_to_process cfg) i (length tweets)"
proof (induction tweets arbitrary: i d f w)
  case Nil
  then show ?case by simp
next
  case (Cons tweet rest)
  show ?case
  proof (cases "limit_hit (max_tweets_to_process cfg) i")
    case (Some n)
    with Cons.prems show ?thesis by (auto simp: emit_def delete_calls_def)
  next
    case None
    obtain d1 f1 w1 where step: "process_tweet self cfg tweet (d, f) w = ((d1, f1), w1)"
      by (metis prod.exhaust)
    with None Cons.prems have "delete_loop self cfg (Suc i) rest (d1, f1) w1 = ((d', f'), w')"
      by simp
    from Cons.IH [OF this] process_tweet_calls [OF step] processed_continue [OF None]
    show ?thesis by simp
  qed
qed

lemma delete_tweets_limit_nonzero:
  assumes "max_tweets_to_process cfg = Some n" and "0 < n"
    and "delete_tweets self cfg tweets w = ((deleted_count, failed_count), w')"
  shows "length (delete_calls (events w')) \<le> length (delete_calls (events w)) + nat n"
    and "dry_run cfg \<or> sleep_error (rate_limit_delay cfg) = None
           \<Longrightarrow> deleted_count + failed_count \<le> nat n"
  using assms delete_loop_counts [of cfg self 0 tweets 0 0 w deleted_count failed_count w']
    delete_loop_calls [of self cfg 0 tweets 0 0 w deleted_count failed_count w']
  by (auto simp: delete_tweets_def processed_def)

lemma sample_delete_run:
  "delete_tweets sample_cleaner sample_config [plain_tweet 1, plain_tweet 2, plain_tweet 3] start_world
     = ((2, 1),
        \<lparr> cstate = 3,
          events = [Delete_tweet 1, Print ''Deleted tweet 1: words'', Sleep 1,
                    Delete_tweet 2, Print ''Failed to delete tweet 2: 403 Forbidden'',
                    Delete_tweet 3, Print ''Deleted tweet 3: words'', Sleep 1] \<rparr>)"
  by code_simp

lemma sample_dry_run:
  "delete_tweets sample_cleaner (sample_config\<lparr>dry_run := True\<rparr>)
     [plain_tweet 1, plain_tweet 2, plain_tweet 3] start_world
     = ((3, 0),
        \<lparr> cstate = 0,
          events = [Print ''[DRY RUN] Would delete tweet 1: words'',
                    Print ''[DRY RUN] Would delete tweet 2: words'',
                    Print ''[DRY RUN] Would delete tweet 3: words''] \<rparr>)"
  by code_simp

subsection \<open>The deletion loop\<close>

text \<open>
  C2. A limit \<open>MAX_TWEETS_TO_PROCESS = N\<close> bounds the number of delete calls
  by \<open>N\<close>. With \<open>N = 0\<close> the test \<open>MAX_TWEETS_TO_PROCESS and ...\<close> is falsy
  and nothing is bounded: on two tweets and the limit 0 the loop makes two
  delete calls and counts two deletions. (For \<open>N > 0\<close> the bound holds, see
  \<open>delete_tweets_limit_nonzero\<close>.)
\<close>

theorem delete_tweets_limit_zero_unbounded:
  "fst (delete_tweets sample_cleaner (sample_config\<lparr>max_tweets_to_process := Some 0\<rparr>)
          [plain_tweet 1, plain_tweet 3] start_world) = (2, 0) \<and>
   delete_calls (events (snd (delete_tweets sample_cleaner
          (sample_config\<lparr>max_tweets_to_process := Some 0\<rparr>)
          [plain_tweet 1, plain_tweet 3] start_world))) = [Delete_tweet 1, Delete_tweet 3]"
  by code_simp

text \<open>
  C4. With \<open>DRY_RUN\<close> true, \<open>delete_tweets\<close> returns \<open>failed_count = 0\<close>,
  makes no call of the client at all (so no delete call, and the collaborator's
  state is untouched), and \<open>deleted_count\<close> is the number of tweets the loop
  ran on: all of them, or the limit when a nonzero limit is set.
\<close>

theorem delete_tweets_dry_run:
  assumes "dry_run cfg"
    and "delete_tweets self cfg tweets w = ((deleted_count, failed_count), w')"
  shows "failed_count = 0 \<and>
         delete_calls (events w') = delete_calls (events w) \<and>
         client_calls (events w') = client_calls (events w) \<and>
         cstate w' = cstate w \<and>
         deleted_count =
           (case max_tweets_to_process cfg of
              None \<Rightarrow> length tweets
            | Some n \<Rightarrow> if n = 0 then length tweets else min (length tweets) (nat n))"
proof -
  from assms have loop: "delete_loop self cfg 0 tweets (0, 0) w = ((deleted_count, failed_count), w')"
    by (simp add: delete_tweets_def)
  from delete_loop_dry_run [OF assms(1) loop]
  have dry: "failed_count = 0" "cstate w' = cstate w"
    "client_calls (events w') = client_calls (events w)"
    by simp_all
  from delete_loop_counts [OF disjI1 [OF assms(1)] loop] dry(1)
  have "deleted_count = processed (max_tweets_to_process cfg) 0 (length tweets)"
    by simp
  with dry show ?thesis
    by (simp add: client_calls_delete processed_def split: option.splits)
qed

theorem delete_tweets_dry_run_witness:
  "dry_run (sample_config\<lparr>dry_run := True\<rparr>) \<and>
   fst (delete_tweets sample_cleaner (sample_config\<lparr>dry_run := True\<rparr>)
          [plain_tweet 1, plain_tweet 2, plain_tweet 3] start_world) = (3, 0) \<and>
   cstate (snd (delete_tweets sample_cleaner (sample_config\<lparr>dry_run := True\<rparr>)
          [plain_tweet 1, plain_tweet 2, plain_tweet 3] start_world)) = 0"
  using delete_tweets_dry_run
    [of "sample_config\<lparr>dry_run := True\<rparr>" sample_cleaner
        "[plain_tweet 1, plain_tweet 2, plain_tweet 3]" start_world 3 0
        "snd (delete_tweets sample_cleaner (sample_config\<lparr>dry_run := True\<rparr>)
          [plain_tweet 1, plain_tweet 2, plain_tweet 3] start_world)"]
    sample_dry_run
  by (simp add: sample_config_def start_world_def)

text \<open>
  The tally when the pause returns, or in a dry run: the two counters add up to
  the number of tweets the loop ran on, one pass through the body adds one to
  exactly one of them, and neither ever decreases.
\<close>

lemma delete_tweets_tally_valid_pause:
  assumes "dry_run cfg \<or> sleep_error (rate_limit_delay cfg) = None"
  shows "(delete_tweets self cfg tweets w = ((deleted_count, failed_count), w') \<longrightarrow>
            deleted_count + failed_count =
              (case max_tweets_to_process cfg of
                 None \<Rightarrow> length tweets
               | Some n \<Rightarrow> if n = 0 then length tweets else min (length tweets) (nat n))) \<and>
         (process_tweet self cfg tweet (d, f) w1 = ((d1, f1), w1') \<longrightarrow>
            (d1 = d + 1 \<and> f1 = f) \<or> (d1 = d \<and> f1 = f + 1)) \<and>
         (delete_loop self cfg i rest (d, f) w2 = ((d2, f2), w2') \<longrightarrow> d \<le> d2 \<and> f \<le> f2)"
proof (intro conjI impI)
  assume "delete_tweets self cfg tweets w = ((deleted_count, failed_count), w')"
  then have "delete_loop self cfg 0 tweets (0, 0) w = ((deleted_count, failed_count), w')"
    by (simp add: delete_tweets_def)
  from delete_loop_counts [OF assms this]
  show "deleted_count + failed_count =
        (case max_tweets_to_process cfg of
           None \<Rightarrow> length tweets
         | Some n \<Rightarrow> if n = 0 then length tweets else min (length tweets) (nat n))"
    by (simp add: processed_def split: option.splits)
next
  assume "process_tweet self cfg tweet (d, f) w1 = ((d1, f1), w1')"
  from process_tweet_step [OF assms this]
  show "(d1 = d + 1 \<and> f1 = f) \<or> (d1 = d \<and> f1 = f + 1)" by simp
next
  assume loop: "delete_loop self cfg i rest (d, f) w2 = ((d2, f2), w2')"
  from delete_loop_counts_any [OF loop] show "d \<le> d2" by simp
  from delete_loop_counts_any [OF loop] show "f \<le> f2" by simp
qed

text \<open>
  C10. The two counters \<open>delete_tweets\<close> returns should add up to the number
  of tweets the loop ran on, each pass through the body adding one to exactly
  one of them. The code breaks this when \<open>time.sleep(RATE_LIMIT_DELAY)\<close>
  raises: the pause stands inside the \<open>try\<close>, after \<open>deleted_count += 1\<close>, so
  the \<open>except\<close> clause adds one to \<open>failed_count\<close> for a tweet already counted
  as deleted, and prints that its deletion failed. With the delay \<open>-1\<close> and two
  tweets that the client deletes, one pass takes the counters from \<open>(0, 0)\<close> to
  \<open>(1, 1)\<close> and the loop returns \<open>(2, 2)\<close>. (When the pause returns, and in a
  dry run, the tally holds: \<open>delete_tweets_tally_valid_pause\<close>.)
\<close>

theorem delete_tweets_raising_pause_counts_twice:
  "process_tweet sample_cleaner (sample_config\<lparr>rate_limit_delay := - 1\<rparr>) (plain_tweet 1) (0, 0)
     start_world
     = ((1, 1),
        \<lparr> cstate = 1,
          events = [Delete_tweet 1, Print ''Deleted tweet 1: words'',
                    Print ''Failed to delete tweet 1: sleep length must be non-negative''] \<rparr>) \<and>
   fst (delete_tweets sample_cleaner (sample_config\<lparr>rate_limit_delay := - 1\<rparr>)
          [plain_tweet 1, plain_tweet 3] start_world) = (2, 2) \<and>
   delete_calls (events (snd (delete_tweets sample_cleaner
          (sample_config\<lparr>rate_limit_delay := - 1\<rparr>)
          [plain_tweet 1, plain_tweet 3] start_world))) = [Delete_tweet 1, Delete_tweet 3]"
  by code_simp

lemma page_requests_append [simp]:
  "page_requests (xs @ ys) = page_requests xs @ page_requests ys"
  by (simp add: page_requests_def)

lemma page_requests_Nil [simp]: "page_requests [] = []"
  by (simp add: page_requests_def)

lemma page_requests_Cons [simp]:
  "page_requests (e # es) = (if is_page_request e then e # page_requests es else page_requests es)"
  by (simp add: page_requests_def)

lemma page_requests_progress [simp]: "page_requests (progress tweets all_tweets) = []"
  by (simp add: page_requests_def progress_def)

lemma fetch_loop_pages_chain:
  "pages_chain self (cstate w) token pages \<Longrightarrow>
     \<exists>w'. fetch_loop self token all_tweets w
             = Some (all_tweets @ concat (map page_records pages), w') \<and>
          page_requests (events w')
             = page_requests (events w)
               @ map (Get_users_tweets (user_id self)) (token # map next_token (butlast pages))"
proof (induction pages arbitrary: token all_tweets w)
  case Nil
  then show ?case by simp
next
  case (Cons page pages)
  from Cons.prems obtain s where
    resp: "get_users_tweets self (cstate w) (user_id self) token = (Inr page, s)" and
    rest: "case next_token page of None \<Rightarrow> pages = []
           | Some t \<Rightarrow> pages \<noteq> [] \<and> pages_chain self s (Some t) pages"
    by (auto split: prod.splits sum.splits)
  show ?case
  proof (cases "next_token page")
    case None
    with rest have "pages = []" by simp
    moreover have "fetch_loop self token all_tweets w =
        Some (append_page page all_tweets,
              called s (Get_users_tweets (user_id self) token # progress page all_tweets) w)"
      by (subst fetch_loop.simps) (simp add: resp None)
    ultimately show ?thesis
      by (simp add: append_page_def called_def)
  next
    case (Some t)
    let ?w = "called s (Get_users_tweets (user_id self) token
                        # progress page all_tweets @ [Sleep (1 / 2)]) w"
    from rest Some have ne: "pages \<noteq> []" and chain: "pages_chain self (cstate ?w) (Some t) pages"
      by (simp_all add: called_def)
    have step: "fetch_loop self token all_tweets w =
        fetch_loop self (Some t) (append_page page all_tweets) ?w"
      by (subst fetch_loop.simps) (simp add: resp Some)
    from Cons.IH [OF chain, of "append_page page all_tweets"] step ne Some
    show ?thesis
      by (auto simp: append_page_def called_def)
  qed
qed

lemma fetch_loop_pages_then_error:
  "pages_then_error self (cstate w) token pages e \<Longrightarrow>
     \<exists>w' es. fetch_loop self token all_tweets w
             = Some (all_tweets @ concat (map page_records pages), w') \<and>
          events w' = events w @ es @ [Print (''Error fetching tweets: '' @ e)] \<and>
          page_requests (events w')
             = page_requests (events w)
               @ map (Get_users_tweets (user_id self)) (token # map next_token pages)"
proof (induction pages arbitrary: token all_tweets w)
  case Nil
  then obtain s where
    resp: "get_users_tweets self (cstate w) (user_id self) token = (Inl e, s)"
    by (auto split: prod.splits sum.splits)
  have "fetch_loop self token all_tweets w =
      Some (all_tweets, called s [Get_users_tweets (user_id self) token,
                                  Print (''Error fetching tweets: '' @ e)] w)"
    by (subst fetch_loop.simps) (simp add: resp)
  then show ?case
    by (simp add: called_def)
next
  case (Cons page pages)
  from Cons.prems obtain s t where
    resp: "get_users_tweets self (cstate w) (user_id self) token = (Inr page, s)" and
    tok: "next_token page = Some t" and
    rest: "pages_then_error self s (Some t) pages e"
    by (auto split: prod.splits sum.splits option.splits)
  let ?w = "called s (Get_users_tweets (user_id self) token
                      # progress page all_tweets @ [Sleep (1 / 2)]) w"
  from rest have chain: "pages_then_error self (cstate ?w) (Some t) pages e"
    by (simp add: called_def)
  have step: "fetch_loop self token all_tweets w =
      fetch_loop self (Some t) (append_page page all_tweets) ?w"
    by (subst fetch_loop.simps) (simp add: resp tok)
  from Cons.IH [OF chain, of "append_page page all_tweets"] obtain w' es where
    res: "fetch_loop self (Some t) (append_page page all_tweets) ?w
       = Some (append_page page all_tweets @ concat (map page_records pages), w')"
    "events w' = events ?w @ es @ [Print (''Error fetching tweets: '' @ e)]"
    "page_requests (events w') = page_requests (events ?w)
       @ map (Get_users_tweets (user_id self)) (Some t # map next_token pages)"
    by blast
  let ?es = "Get_users_tweets (user_id self) token # progress page all_tweets @ [Sleep (1 / 2)] @ es"
  from res step tok have
    "fetch_loop self token all_tweets w
       = Some (all_tweets @ concat (map page_records (page # pages)), w') \<and>
     events w' = events w @ ?es @ [Print (''Error fetching tweets: '' @ e)] \<and>
     page_requests (events w')
       = page_requests (events w)
         @ map (Get_users_tweets (user_id self)) (token # map next_token (page # pages))"
    by (simp add: append_page_def called_def)
  then show ?case by blast
qed


lemma get_all_tweets_pages_chain:
  assumes "pages_chain self (cstate w) None pages"
  shows "\<exists>w'. get_all_tweets self w = Some (concat (map page_records pages), w') \<and>
          page_requests (events w')
            = page_requests (events w)
              @ map (Get_users_tweets (user_id self)) (None # map next_token (butlast pages))"
proof -
  let ?w = "emit [Print (CHR 0x0A # ''Fetching tweets from @'' @ username self @ ''...'')] w"
  from assms have "pages_chain self (cstate ?w) None pages"
    by (simp add: emit_def)
  from fetch_loop_pages_chain [OF this, of "[]"] obtain w1 where
    "fetch_loop self None [] ?w = Some (concat (map page_records pages), w1)"
    "page_requests (events w1)
       = page_requests (events ?w)
         @ map (Get_users_tweets (user_id self)) (None # map next_token (butlast pages))"
    by auto
  then show ?thesis
    by (simp add: get_all_tweets_def emit_def)
qed

lemma get_all_tweets_pages_then_error:
  assumes "pages_then_error self (cstate w) None pages e"
  shows "\<exists>w' es. get_all_tweets self w = Some (concat (map page_records pages), w') \<and>
          events w' = events w @ es
            @ [Print (''Error fetching tweets: '' @ e),
               Print (''Total tweets fetched: ''
                      @ str_nat (length (concat (map page_records pages))))] \<and>
          page_requests (events w')
            = page_requests (events w)
              @ map (Get_users_tweets (user_id self)) (None # map next_token pages)"
proof -
  let ?start = "Print (CHR 0x0A # ''Fetching tweets from @'' @ username self @ ''...'')"
  let ?w = "emit [?start] w"
  from assms have "pages_then_error self (cstate ?w) None pages e"
    by (simp add: emit_def)
  from fetch_loop_pages_then_error [OF this, of "[]"] obtain w1 es where
    res: "fetch_loop self None [] ?w = Some (concat (map page_records pages), w1)"
    "events w1 = events ?w @ es @ [Print (''Error fetching tweets: '' @ e)]"
    "page_requests (events w1)
       = page_requests (events ?w)
         @ map (Get_users_tweets (user_id self)) (None # map next_token pages)"
    by auto
  let ?w' = "emit [Print (''Total tweets fetched: ''
                         @ str_nat (length (concat (map page_records pages))))] w1"
  from res have
    "get_all_tweets self w = Some (concat (map page_records pages), ?w') \<and>
     events ?w' = events w @ (?start # es)
       @ [Print (''Error fetching tweets: '' @ e),
          Print (''Total tweets fetched: ''
                 @ str_nat (length (concat (map page_records pages))))] \<and>
     page_requests (events ?w')
       = page_requests (events w)
         @ map (Get_users_tweets (user_id self)) (None # map next_token pages)"
    by (simp add: get_all_tweets_def emit_def)
  then show ?thesis by blast
qed

lemma sample_pages_chain:
  "pages_chain sample_cleaner (cstate start_world) None [first_page, empty_page, last_page]"
  by (simp add: sample_cleaner_def start_world_def first_page_def empty_page_def last_page_def)

lemma failing_pages_then_error:
  "pages_then_error failing_cleaner (cstate start_world) None [first_page]
     ''503 Service Unavailable''"
  by (simp add: failing_cleaner_def sample_cleaner_def start_world_def first_page_def)

lemma sample_page_ids:
  "map tweet_id (concat (map page_records [first_page, empty_page, last_page])) = [1, 2, 3]"
  "map tweet_id (concat (map page_records [first_page])) = [1, 2]"
  by (simp_all add: page_records_def make_tweet_dict_def items_def
      first_page_def empty_page_def last_page_def)

lemma sample_fetched:
  "fetched (get_all_tweets sample_cleaner start_world)
     = Some ([1, 2, 3],
             [Get_users_tweets 99 None, Get_users_tweets 99 (Some ''t1''),
              Get_users_tweets 99 (Some ''t2'')])"
proof -
  from get_all_tweets_pages_chain [OF sample_pages_chain] obtain w' where
    res: "get_all_tweets sample_cleaner start_world
       = Some (concat (map page_records [first_page, empty_page, last_page]), w')" and
    req: "page_requests (events w')
       = page_requests (events start_world)
         @ map (Get_users_tweets (user_id sample_cleaner))
             (None # map next_token (butlast [first_page, empty_page, last_page]))"
    by blast
  from req have "page_requests (events w')
       = [Get_users_tweets 99 None, Get_users_tweets 99 (Some ''t1''),
          Get_users_tweets 99 (Some ''t2'')]"
    by (simp add: start_world_def sample_cleaner_def first_page_def empty_page_def)
  with res sample_page_ids(1) show ?thesis
    by (simp only: fetched_def option.case prod.case)
qed

subsection \<open>The paging loop\<close>

text \<open>
  C3. When the collaborator answers, without error, with a finite list of pages
  whose next tokens chain (the last page alone has none), \<open>get_all_tweets\<close>
  returns: its result is the records of the pages in order, one record for each
  reported tweet, so its length is the sum of the pages' tweet counts; and it
  makes one request per page, the last for the page without a next token.
\<close>

theorem get_all_tweets_complete:
  assumes "pages_chain self (cstate w) None pages"
  shows "\<exists>all_tweets w'.
           get_all_tweets self w = Some (all_tweets, w') \<and>
           all_tweets = concat (map page_records pages) \<and>
           length all_tweets = sum_list (map (\<lambda>page. length (items (data page))) pages) \<and>
           map tweet_id all_tweets = concat (map (\<lambda>page. map raw_id (items (data page))) pages) \<and>
           page_requests (events w')
             = page_requests (events w)
               @ map (Get_users_tweets (user_id self)) (None # map next_token (butlast pages)) \<and>
           length (page_requests (events w')) = length (page_requests (events w)) + length pages"
proof -
  from get_all_tweets_pages_chain [OF assms] obtain w' where
    res: "get_all_tweets self w = Some (concat (map page_records pages), w')" and
    req: "page_requests (events w')
            = page_requests (events w)
              @ map (Get_users_tweets (user_id self)) (None # map next_token (butlast pages))"
    by blast
  from assms have "pages \<noteq> []" by auto
  with req have len: "length (page_requests (events w')) = length (page_requests (events w)) + length pages"
    by simp
  have count: "length (concat (map page_records pages))
      = sum_list (map (\<lambda>page. length (items (data page))) pages)"
    by (simp add: length_concat page_records_def comp_def)
  have ids: "map tweet_id (concat (map page_records pages))
      = concat (map (\<lambda>page. map raw_id (items (data page))) pages)"
    by (simp add: map_concat page_records_def make_tweet_dict_def comp_def)
  from res req len count ids show ?thesis by blast
qed

theorem get_all_tweets_complete_witness:
  "pages_chain sample_cleaner (cstate start_world) None [first_page, empty_page, last_page] \<and>
   fetched (get_all_tweets sample_cleaner start_world) \<noteq> None \<and>
   map_option fst (fetched (get_all_tweets sample_cleaner start_world)) = Some [1, 2, 3]"
proof -
  from get_all_tweets_complete [OF sample_pages_chain] obtain all_tweets w' where
    "get_all_tweets sample_cleaner start_world = Some (all_tweets, w')"
    "all_tweets = concat (map page_records [first_page, empty_page, last_page])"
    by blast
  with sample_pages_chain sample_page_ids(1) show ?thesis
    by (simp add: fetched_def)
qed

text \<open>
  C5. When the collaborator answers with any number of pages (none, one or
  more), each with a next token, and then fails the next request with an
  exception, \<open>get_all_tweets\<close> returns normally the records of the pages fetched
  before the failure. The last lines it prints are the error and the total, and
  the failed request is the last one it makes.
\<close>

theorem get_all_tweets_partial_on_error:
  assumes "pages_then_error self (cstate w) None pages e"
  shows "\<exists>w' es.
           get_all_tweets self w = Some (concat (map page_records pages), w') \<and>
           events w' = events w @ es
             @ [Print (''Error fetching tweets: '' @ e),
                Print (''Total tweets fetched: ''
                       @ str_nat (length (concat (map page_records pages))))] \<and>
           page_requests (events w')
             = page_requests (events w)
               @ map (Get_users_tweets (user_id self)) (None # map next_token pages)"
  using get_all_tweets_pages_then_error [OF assms] .

theorem get_all_tweets_partial_on_error_witness:
  "pages_then_error failing_cleaner (cstate start_world) None [first_page]
     ''503 Service Unavailable'' \<and>
   map_option fst (fetched (get_all_tweets failing_cleaner start_world)) = Some [1, 2]"
proof -
  from get_all_tweets_partial_on_error [OF failing_pages_then_error] obtain w' where
    "get_all_tweets failing_cleaner start_world
       = Some (concat (map page_records [first_page]), w')"
    by blast
  with failing_pages_then_error sample_page_ids(2) show ?thesis
    by (simp only: fetched_def option.case prod.case option.map fst_conv simp_thms)
qed

text \<open>
  C6, as the claim states it, fails: the second page of the sample collaborator
  has no tweets and a next token, and the loop goes on to request the third
  page.
\<close>

theorem empty_page_ends_loop_counterexample:
  "fst (get_users_tweets sample_cleaner 1 (user_id sample_cleaner) (Some ''t1'')) = Inr empty_page \<and>
   items (data empty_page) = [] \<and>
   fetched (get_all_tweets sample_cleaner start_world)
     = Some ([1, 2, 3],
             [Get_users_tweets 99 None, Get_users_tweets 99 (Some ''t1''),
              Get_users_tweets 99 (Some ''t2'')])"
  using sample_fetched
  by (simp add: sample_cleaner_def empty_page_def items_def)

text \<open>
  C6, amended. A page without tweets adds nothing to the result, prints nothing
  and raises nothing. The loop ends at that page when it carries no next token;
  when it carries one, the loop pauses and requests the next page.
\<close>

theorem fetch_loop_empty_page:
  assumes "get_users_tweets self (cstate w) (user_id self) token = (Inr tweets, s)"
    and "items (data tweets) = []"
  shows "fetch_loop self token all_tweets w =
           (case next_token tweets of
              None \<Rightarrow> Some (all_tweets, called s [Get_users_tweets (user_id self) token] w)
            | Some t \<Rightarrow>
                fetch_loop self (Some t) all_tweets
                  (called s [Get_users_tweets (user_id self) token, Sleep (1 / 2)] w))"
  by (subst fetch_loop.simps)
     (simp add: assms append_page_def page_records_def progress_def split: option.splits)

theorem fetch_loop_empty_page_witness:
  "fetch_loop sample_cleaner (Some ''t1'') [] \<lparr> cstate = 1, events = [] \<rparr> =
   fetch_loop sample_cleaner (Some ''t2'') []
     \<lparr> cstate = 2, events = [Get_users_tweets 99 (Some ''t1''), Sleep (1 / 2)] \<rparr>"
  using fetch_loop_empty_page
    [of sample_cleaner "\<lparr> cstate = 1, events = [] \<rparr>" "Some ''t1''" empty_page 2 "[]"]
  by (simp add: sample_cleaner_def empty_page_def items_def called_def)

lemma resolve_usernames_ids:
  "resolve_usernames self names ids w = (ids', w') \<Longrightarrow>
     ids' = ids \<union> {str_int uid | uid.
                     Inr (Some uid) \<in> set (lookup_results self (cstate w) names)}"
proof (induction names arbitrary: ids w)
  case Nil
  then show ?case by simp
next
  case (Cons name names)
  obtain r s where resp: "get_user self (cstate w) name = (r, s)"
    by (metis prod.exhaust)
  show ?case
  proof (cases r)
    case (Inl e)
    with Cons.prems resp Cons.IH [of ids "called s [Get_user name,
        Print (''Error looking up @'' @ name @ '': '' @ e)] w"]
    show ?thesis by (auto simp: called_def)
  next
    case (Inr found)
    show ?thesis
    proof (cases found)
      case None
      with Inr Cons.prems resp Cons.IH [of ids "called s [Get_user name,
          Print (''Warning: Could not find user @'' @ name)] w"]
      show ?thesis by (auto simp: called_def)
    next
      case (Some uid)
      with Inr Cons.prems resp Cons.IH [of "insert (str_int uid) ids" "called s [Get_user name,
          Print (''Will preserve retweets from @'' @ name @ '' (ID: '' @ str_int uid @ '')'')] w"]
      show ?thesis by (auto simp: called_def)
    qed
  qed
qed

lemma resolve_usernames_events:
  "resolve_usernames self names ids w = (ids', w') \<Longrightarrow>
     (\<exists>es. events w' = events w @ es) \<and>
     user_lookups (events w') = user_lookups (events w) @ map Get_user names \<and>
     delete_calls (events w') = delete_calls (events w) \<and>
     page_requests (events w') = page_requests (events w)"
proof (induction names arbitrary: ids w)
  case Nil
  then show ?case by simp
next
  case (Cons name names)
  obtain r s where resp: "get_user self (cstate w) name = (r, s)"
    by (metis prod.exhaust)
  show ?case
  proof (cases r)
    case (Inl e)
    with Cons.prems resp Cons.IH [of ids "called s [Get_user name,
        Print (''Error looking up @'' @ name @ '': '' @ e)] w"]
    show ?thesis by (auto simp: called_def user_lookups_def delete_calls_def)
  next
    case (Inr found)
    show ?thesis
    proof (cases found)
      case None
      with Inr Cons.prems resp Cons.IH [of ids "called s [Get_user name,
          Print (''Warning: Could not find user @'' @ name)] w"]
      show ?thesis by (auto simp: called_def user_lookups_def delete_calls_def)
    next
      case (Some uid)
      with Inr Cons.prems resp Cons.IH [of "insert (str_int uid) ids" "called s [Get_user name,
          Print (''Will preserve retweets from @'' @ name @ '' (ID: '' @ str_int uid @ '')'')] w"]
      show ?thesis by (auto simp: called_def user_lookups_def delete_calls_def)
    qed
  qed
qed

lemma resolve_usernames_reports:
  "resolve_usernames self names ids w = (ids', w') \<Longrightarrow>
     (name, r) \<in> set (zip names (lookup_results self (cstate w) names)) \<Longrightarrow>
     (case r of
        Inl e \<Rightarrow> Print (''Error looking up @'' @ name @ '': '' @ e) \<in> set (events w')
      | Inr None \<Rightarrow> Print (''Warning: Could not find user @'' @ name) \<in> set (events w')
      | Inr (Some uid) \<Rightarrow> str_int uid \<in> ids')"
proof (induction names arbitrary: ids w)
  case Nil
  then show ?case by simp
next
  case (Cons n names)
  obtain r0 s where resp: "get_user self (cstate w) n = (r0, s)"
    by (metis prod.exhaust)
  let ?line = "case r0 of
        Inl e \<Rightarrow> ''Error looking up @'' @ n @ '': '' @ e
      | Inr None \<Rightarrow> ''Warning: Could not find user @'' @ n
      | Inr (Some uid) \<Rightarrow> ''Will preserve retweets from @'' @ n @ '' (ID: '' @ str_int uid @ '')''"
  let ?ids = "case r0 of Inr (Some uid) \<Rightarrow> insert (str_int uid) ids | _ \<Rightarrow> ids"
  let ?w = "called s [Get_user n, Print ?line] w"
  from Cons.prems(1) resp have rest: "resolve_usernames self names ?ids ?w = (ids', w')"
    by (auto split: sum.splits option.splits)
  from Cons.prems(2) resp consider
    (head) "name = n" "r = r0" |
    (tail) "(name, r) \<in> set (zip names (lookup_results self (cstate ?w) names))"
    by (auto simp: called_def)
  then show ?case
  proof cases
    case head
    from resolve_usernames_events [OF rest] obtain es where
      "events w' = events w @ [Get_user n, Print ?line] @ es"
      by (auto simp: called_def)
    moreover from resolve_usernames_ids [OF rest] have "?ids \<subseteq> ids'" by blast
    ultimately show ?thesis using head
      by (auto split: sum.splits option.splits)
  next
    case tail
    from Cons.IH [OF rest tail] show ?thesis .
  qed
qed

lemma sample_resolve:
  "get_user_ids_to_preserve sample_cleaner sample_config start_world
     = ({''42''},
        \<lparr> cstate = 3,
          events = [Get_user ''username1'',
                    Print ''Will preserve retweets from @username1 (ID: 42)'',
                    Get_user ''ghost_user'',
                    Print ''Warning: Could not find user @ghost_user'',
                    Get_user ''username3'',
                    Print ''Error looking up @username3: 503 Service Unavailable''] \<rparr>)"
  by code_simp

subsection \<open>Resolving the preserve set\<close>

text \<open>
  C7. \<open>get_user_ids_to_preserve\<close> looks up every configured username, in
  order, whatever the earlier lookups answered. The set it returns holds the
  strings of exactly the ids the collaborator answered with; a username the
  collaborator did not find, or failed on, adds nothing and leaves a warning
  line in the output.
\<close>

theorem get_user_ids_to_preserve_exact:
  assumes "get_user_ids_to_preserve self cfg w = (user_ids, w')"
  shows "user_ids = {str_int uid | uid.
            Inr (Some uid) \<in> set (lookup_results self (cstate w) (preserve_retweets_from cfg))} \<and>
         user_lookups (events w')
           = user_lookups (events w) @ map Get_user (preserve_retweets_from cfg) \<and>
         (\<forall>(name, r) \<in> set (zip (preserve_retweets_from cfg)
                               (lookup_results self (cstate w) (preserve_retweets_from cfg))).
            case r of
              Inl e \<Rightarrow> Print (''Error looking up @'' @ name @ '': '' @ e) \<in> set (events w')
            | Inr None \<Rightarrow> Print (''Warning: Could not find user @'' @ name) \<in> set (events w')
            | Inr (Some uid) \<Rightarrow> str_int uid \<in> user_ids)"
proof -
  from assms have loop:
    "resolve_usernames self (preserve_retweets_from cfg) {} w = (user_ids, w')"
    by (simp add: get_user_ids_to_preserve_def)
  from resolve_usernames_ids [OF loop] have
    "user_ids = {str_int uid | uid.
        Inr (Some uid) \<in> set (lookup_results self (cstate w) (preserve_retweets_from cfg))}"
    by simp
  moreover from resolve_usernames_events [OF loop] have
    "user_lookups (events w')
       = user_lookups (events w) @ map Get_user (preserve_retweets_from cfg)"
    by simp
  moreover have
    "\<forall>(name, r) \<in> set (zip (preserve_retweets_from cfg)
                           (lookup_results self (cstate w) (preserve_retweets_from cfg))).
        case r of
          Inl e \<Rightarrow> Print (''Error looking up @'' @ name @ '': '' @ e) \<in> set (events w')
        | Inr None \<Rightarrow> Print (''Warning: Could not find user @'' @ name) \<in> set (events w')
        | Inr (Some uid) \<Rightarrow> str_int uid \<in> user_ids"
  proof (intro ballI)
    fix p
    assume "p \<in> set (zip (preserve_retweets_from cfg)
                        (lookup_results self (cstate w) (preserve_retweets_from cfg)))"
    then have "(fst p, snd p) \<in> set (zip (preserve_retweets_from cfg)
                        (lookup_results self (cstate w) (preserve_retweets_from cfg)))"
      by simp
    from resolve_usernames_reports [OF loop this]
    show "case p of (name, r) \<Rightarrow>
        case r of
          Inl e \<Rightarrow> Print (''Error looking up @'' @ name @ '': '' @ e) \<in> set (events w')
        | Inr None \<Rightarrow> Print (''Warning: Could not find user @'' @ name) \<in> set (events w')
        | Inr (Some uid) \<Rightarrow> str_int uid \<in> user_ids"
      by (simp only: split_def)
  qed
  ultimately show ?thesis by (intro conjI)
qed

theorem get_user_ids_to_preserve_exact_witness:
  "fst (get_user_ids_to_preserve sample_cleaner sample_config start_world) = {''42''} \<and>
   user_lookups (events (snd (get_user_ids_to_preserve sample_cleaner sample_config start_world)))
     = [Get_user ''username1'', Get_user ''ghost_user'', Get_user ''username3'']"
proof -
  have result: "get_user_ids_to_preserve sample_cleaner sample_config start_world
      = ({''42''}, snd (get_user_ids_to_preserve sample_cleaner sample_config start_world))"
    by (simp only: sample_resolve snd_conv)
  from get_user_ids_to_preserve_exact [OF result, THEN conjunct2, THEN conjunct1]
  have "user_lookups (events (snd (get_user_ids_to_preserve sample_cleaner sample_config start_world)))
      = user_lookups (events start_world) @ map Get_user (preserve_retweets_from sample_config)" .
  then have "user_lookups (events (snd (get_user_ids_to_preserve sample_cleaner sample_config start_world)))
      = [Get_user ''username1'', Get_user ''ghost_user'', Get_user ''username3'']"
    by (simp add: sample_config_def start_world_def user_lookups_def)
  with result show ?thesis by (simp only: sample_resolve fst_conv simp_thms)
qed

subsection \<open>The confirmation\<close>

text \<open>
  C8. With \<open>DRY_RUN\<close> false, \<open>run\<close> prints its warning and asks for the
  confirmation before anything else. On any answer other than \<open>DELETE\<close> it
  prints \<open>Aborted.\<close> and returns: the client is never called (so no tweet is
  deleted) and the collaborator's state is as it was. Only on the answer
  \<open>DELETE\<close> does the run go on, from the world in which the question was asked.
\<close>

theorem run_requires_confirmation:
  assumes "\<not> dry_run cfg"
  shows "(confirm \<noteq> ''DELETE'' \<longrightarrow>
           (\<exists>w'. run self cfg confirm w = Some w' \<and>
                 cstate w' = cstate w \<and>
                 client_calls (events w') = client_calls (events w) \<and>
                 delete_calls (events w') = delete_calls (events w) \<and>
                 events w' = events w
                   @ [Print (CHR 0x0A # banner), Print ''TWITTER/X CLEANUP SCRIPT'', Print banner,
                      Print (CHR 0x0A # warning_sign
                             @ ''  WARNING: This will DELETE tweets permanently!''),
                      Input confirm_prompt,
                      Print ''Aborted.''])) \<and>
         run self cfg ''DELETE'' w =
           run_confirmed self cfg
             (emit [Print (CHR 0x0A # banner), Print ''TWITTER/X CLEANUP SCRIPT'', Print banner,
                    Print (CHR 0x0A # warning_sign
                           @ ''  WARNING: This will DELETE tweets permanently!''),
                    Input confirm_prompt] w)"
  using assms
  by (simp add: run_def Let_def emit_def client_calls_def delete_calls_def)

theorem run_requires_confirmation_witness:
  "\<not> dry_run sample_config \<and>
   run sample_cleaner sample_config ''delete'' start_world =
     Some \<lparr> cstate = 0,
            events = [Print (CHR 0x0A # banner), Print ''TWITTER/X CLEANUP SCRIPT'', Print banner,
                      Print (CHR 0x0A # warning_sign
                             @ ''  WARNING: This will DELETE tweets permanently!''),
                      Input confirm_prompt,
                      Print ''Aborted.''] \<rparr>"
  using run_requires_confirmation [of sample_config "''delete''" sample_cleaner start_world]
  by (auto simp: sample_config_def start_world_def)

end
